theory Spec2Isabelle
  imports Complex_Main
begin

section \<open>JavaScript strings as the client uses them\<close>

text \<open>
  The client is TypeScript. A string is a list of code units; HOL's \<open>char\<close> holds the code
  units 0..255, which covers every literal of the sources. \<open>String.prototype.trim\<close> strips
  the ECMAScript WhiteSpace and LineTerminator code units from both ends; those below 256
  are TAB, LF, VT, FF, CR, SP and NBSP. A string is truthy when it is not empty.
\<close>

definition isWhiteSpace :: "char \<Rightarrow> bool" where
  "isWhiteSpace c = (of_char c \<in> {9, 10, 11, 12, 13, 32, 160 :: nat})"

definition trim :: "string \<Rightarrow> string" where
  "trim s = rev (dropWhile isWhiteSpace (rev (dropWhile isWhiteSpace s)))"

definition truthy :: "string \<Rightarrow> bool" where
  "truthy s = (s \<noteq> [])"

text \<open>\<open>Array.prototype.join\<close>: the elements separated by \<open>sep\<close>, the empty string for \<open>[]\<close>.\<close>

fun join :: "string \<Rightarrow> string list \<Rightarrow> string" where
  "join sep [] = []"
| "join sep [x] = x"
| "join sep (x # y # ys) = x @ sep @ join sep (y # ys)"

section \<open>FeedbackButtons.tsx\<close>

definition FEEDBACK_TAGS :: "string list" where
  "FEEDBACK_TAGS =
     [''Be more concise'', ''Explain more'', ''Too verbose'', ''Good answer'',
      ''Not accurate'', ''Helpful'', ''Unhelpful'']"

text \<open>The five rating buttons are rendered from this array, one button per element.\<close>

definition RATING_BUTTONS :: "int list" where
  "RATING_BUTTONS = [1, 2, 3, 4, 5]"

text \<open>The component's two \<open>useState\<close> cells: \<open>number | null\<close> and \<open>string[]\<close>.\<close>

record fb_state =
  selectedRating :: "int option"
  selectedTags :: "string list"

definition fb_init :: fb_state where
  "fb_init = \<lparr>selectedRating = None, selectedTags = []\<rparr>"

definition handleTagToggle :: "string \<Rightarrow> fb_state \<Rightarrow> fb_state" where
  "handleTagToggle tag s =
     s\<lparr>selectedTags :=
         (if tag \<in> set (selectedTags s) then filter (\<lambda>t. t \<noteq> tag) (selectedTags s)
          else selectedTags s @ [tag])\<rparr>"

text \<open>
  What a handler of the component does to the outside: it calls the \<open>onFeedback\<close> prop
  with a rating and a text, or it raises the browser's alert.
\<close>

datatype fb_effect = OnFeedback int string | Alert string

definition fb_handleSubmit :: "fb_state \<Rightarrow> fb_effect \<times> fb_state" where
  "fb_handleSubmit s =
     (case selectedRating s of
        Some r \<Rightarrow>
          (OnFeedback r (join '', '' (selectedTags s)),
           s\<lparr>selectedRating := None, selectedTags := []\<rparr>)
      | None \<Rightarrow> (Alert ''Please select a rating (1-5) before submitting.'', s))"

text \<open>The submit button's \<open>disabled\<close> attribute.\<close>

definition submitDisabled :: "fb_state \<Rightarrow> bool" where
  "submitDisabled s = (selectedRating s = None)"

text \<open>
  The user's actions on the rendered component: a click on the \<open>k\<close>-th rating button, on
  the \<open>k\<close>-th tag button, or on the submit button. A button that is not rendered cannot be
  clicked, and a disabled button does not run its handler.
\<close>

datatype fb_event = ClickRating nat | ClickTag nat | ClickSubmit

fun fb_step :: "fb_event \<Rightarrow> fb_state \<Rightarrow> fb_effect option \<times> fb_state" where
  "fb_step (ClickRating k) s =
     (if k < length RATING_BUTTONS then (None, s\<lparr>selectedRating := Some (RATING_BUTTONS ! k)\<rparr>)
      else (None, s))"
| "fb_step (ClickTag k) s =
     (if k < length FEEDBACK_TAGS then (None, handleTagToggle (FEEDBACK_TAGS ! k) s)
      else (None, s))"
| "fb_step ClickSubmit s =
     (if submitDisabled s then (None, s)
      else (case fb_handleSubmit s of (eff, s') \<Rightarrow> (Some eff, s')))"

section \<open>ChatInput (second component of Docs.tsx)\<close>

record tool_option =
  opt_value :: string
  opt_label :: string
  opt_template :: string

definition TOOL_OPTIONS :: "tool_option list" where
  "TOOL_OPTIONS =
     [\<lparr>opt_value = '''', opt_label = ''General Chat'', opt_template = ''''\<rparr>,
      \<lparr>opt_value = ''mortgage_calculator'', opt_label = ''Mortgage Calculator'',
       opt_template = ''principal=300000, rate=6.5, term=30''\<rparr>,
      \<lparr>opt_value = ''loan_eligibility'', opt_label = ''Eligibility Checker'',
       opt_template = ''income=75000, credit_score=720, dti=35''\<rparr>,
      \<lparr>opt_value = ''interest_rate_info'', opt_label = ''Interest Rate Info'',
       opt_template = ''current rates''\<rparr>]"

record ci_state =
  message :: string
  selectedTool :: string

definition ci_init :: ci_state where
  "ci_init = \<lparr>message = '''', selectedTool = ''''\<rparr>"

text \<open>
  \<open>handleSubmit\<close> of ChatInput, given the \<open>disabled\<close> prop: the message it passes to
  \<open>onSendMessage\<close>, if any, and the new state.
\<close>

definition ci_handleSubmit :: "bool \<Rightarrow> ci_state \<Rightarrow> string option \<times> ci_state" where
  "ci_handleSubmit disabled s =
     (if \<not> disabled then
        (let msg = (if truthy (selectedTool s)
                    then ''/tool '' @ selectedTool s @ '' '' @ message s
                    else message s)
         in if truthy (trim msg) then (Some msg, s\<lparr>message := ''''\<rparr>) else (None, s))
      else (None, s))"

text \<open>The \<open>onChange\<close> handler of the tool selector, for the chosen option's value.\<close>

definition ci_selectTool :: "string \<Rightarrow> ci_state \<Rightarrow> ci_state" where
  "ci_selectTool v s =
     s\<lparr>selectedTool := v,
       message := (case find (\<lambda>opt. opt_value opt = v) TOOL_OPTIONS of
                     Some tool \<Rightarrow> opt_template tool
                   | None \<Rightarrow> '''')\<rparr>"

text \<open>
  The user's actions on the form: typing (the input's value becomes \<open>v\<close>), choosing the
  \<open>k\<close>-th option of the selector, submitting the form. The input and the selector carry the
  \<open>disabled\<close> attribute, so they take no action while the prop is set.
\<close>

datatype ci_event = Type string | SelectOption nat | SubmitForm

fun ci_step :: "bool \<Rightarrow> ci_event \<Rightarrow> ci_state \<Rightarrow> string option \<times> ci_state" where
  "ci_step disabled (Type v) s = (if disabled then (None, s) else (None, s\<lparr>message := v\<rparr>))"
| "ci_step disabled (SelectOption k) s =
     (if disabled \<or> \<not> k < length TOOL_OPTIONS then (None, s)
      else (None, ci_selectTool (opt_value (TOOL_OPTIONS ! k)) s))"
| "ci_step disabled SubmitForm s = ci_handleSubmit disabled s"

section \<open>App.tsx\<close>

datatype tab = ChatTab | VisualizationTab | DocsTab

datatype msg_type = User | System | Assistant

record chat_msg =
  msg_type :: msg_type
  content :: string
  thinking :: "string option"

text \<open>
  What the client sends over the socket: \<open>emit('chat_message', {message})\<close> and
  \<open>emit('feedback', {interaction_id, rating, text})\<close>.
\<close>

datatype emit =
    ChatMessageEmit (cm_message: string)
  | FeedbackEmit (fe_interaction_id: string) (fe_rating: int) (fe_text: string)

text \<open>
  The payload of a \<open>response\<close> event. A field the server left out is the empty string,
  which JavaScript's truthiness tests treat as they treat \<open>undefined\<close>.
\<close>

record response_data =
  rd_message :: string
  rd_thinking :: string
  rd_interaction_id :: string

text \<open>
  The state cells of \<open>App\<close> that the handlers below read or write, and whether
  \<open>socketRef.current\<close> holds a socket. The opaque \<open>visualizationData\<close> cell, which only the
  dashboard reads, is left out.
\<close>

record app_state =
  messages :: "chat_msg list"
  connected :: bool
  lastInteractionId :: "string option"
  activeTab :: tab
  isThinking :: bool
  socketPresent :: bool

definition app_init :: app_state where
  "app_init =
     \<lparr>messages = [], connected = False, lastInteractionId = None, activeTab = ChatTab,
      isThinking = False, socketPresent = True\<rparr>"

text \<open>A template literal prints an integral number in decimal.\<close>

fun digits :: "nat \<Rightarrow> string" where
  "digits n =
     (if n < 10 then [''0123456789'' ! n] else digits (n div 10) @ [''0123456789'' ! (n mod 10)])"

declare digits.simps [simp del]

definition showInt :: "int \<Rightarrow> string" where
  "showInt i = (if i < 0 then ''-'' @ digits (nat (- i)) else digits (nat i))"

definition on_connect :: "app_state \<Rightarrow> app_state" where
  "on_connect a =
     a\<lparr>connected := True,
       messages := messages a @
         [\<lparr>msg_type = System,
           content = ''Connected to Home Loan Assistant. How can I help you today?'',
           thinking = None\<rparr>]\<rparr>"

definition on_disconnect :: "app_state \<Rightarrow> app_state" where
  "on_disconnect a =
     a\<lparr>connected := False,
       messages := messages a @
         [\<lparr>msg_type = System,
           content = ''Disconnected from server. Please refresh the page to reconnect.'',
           thinking = None\<rparr>]\<rparr>"

definition on_response :: "response_data \<Rightarrow> app_state \<Rightarrow> app_state" where
  "on_response d a =
     (let a1 =
        (if truthy (rd_message d) then
           (let a0 = a\<lparr>messages := messages a @
                       [\<lparr>msg_type = Assistant, content = rd_message d,
                         thinking = Some (rd_thinking d)\<rparr>]\<rparr>
            in if truthy (rd_interaction_id d)
               then a0\<lparr>lastInteractionId := Some (rd_interaction_id d)\<rparr>
               else a0)
         else a)
      in a1\<lparr>isThinking := False\<rparr>)"

definition sendMessage :: "string \<Rightarrow> app_state \<Rightarrow> emit list \<times> app_state" where
  "sendMessage m a =
     (if trim m = [] then ([], a)
      else
        (let a' = a\<lparr>messages := messages a @ [\<lparr>msg_type = User, content = m, thinking = None\<rparr>],
                     isThinking := True,
                     lastInteractionId := None\<rparr>
         in (if socketPresent a then [ChatMessageEmit m] else [], a')))"

definition sendFeedback :: "int \<Rightarrow> string \<Rightarrow> app_state \<Rightarrow> emit list \<times> app_state" where
  "sendFeedback r txt a =
     (case lastInteractionId a of
        None \<Rightarrow> ([], a)
      | Some i \<Rightarrow>
          if \<not> truthy i then ([], a)
          else if socketPresent a then
            (let feedbackMessage =
                   ''Thank you for your feedback! (Rating: '' @ showInt r @ ''/5'' @
                   (if truthy (trim txt)
                    then '' - Comment: '' @ [CHR 0x22] @ trim txt @ [CHR 0x22] @ '')''
                    else '')'')
             in ([FeedbackEmit i r txt],
                 a\<lparr>messages := messages a @
                     [\<lparr>msg_type = System, content = feedbackMessage, thinking = None\<rparr>],
                   lastInteractionId := None\<rparr>))
          else ([], a))"

subsection \<open>The rendered client\<close>

text \<open>
  \<open>App\<close> renders a mobile and a desktop layout side by side (a style sheet hides one). The
  mobile chat panel is rendered while the chat tab is active, the desktop one always; each
  panel holds a \<open>FeedbackButtons\<close> while \<open>lastInteractionId\<close> is truthy, and a
  \<open>ChatInput\<close>. A component that leaves the tree loses its state, and one that enters it
  starts from its initial state.
\<close>

datatype inst = Mobile | Desktop

record client =
  app :: app_state
  fbMobile :: "fb_state option"
  fbDesktop :: "fb_state option"
  ciMobile :: "ci_state option"
  ciDesktop :: "ci_state option"

definition mounted :: "bool \<Rightarrow> 'a \<Rightarrow> 'a option \<Rightarrow> 'a option" where
  "mounted shown init cur =
     (if shown then (case cur of None \<Rightarrow> Some init | Some v \<Rightarrow> Some v) else None)"

definition showsFeedback :: "app_state \<Rightarrow> bool" where
  "showsFeedback a = (case lastInteractionId a of None \<Rightarrow> False | Some i \<Rightarrow> truthy i)"

definition render :: "client \<Rightarrow> client" where
  "render c =
     c\<lparr>fbMobile := mounted (activeTab (app c) = ChatTab \<and> showsFeedback (app c)) fb_init (fbMobile c),
       fbDesktop := mounted (showsFeedback (app c)) fb_init (fbDesktop c),
       ciMobile := mounted (activeTab (app c) = ChatTab) ci_init (ciMobile c),
       ciDesktop := mounted True ci_init (ciDesktop c)\<rparr>"

definition client_init :: client where
  "client_init =
     render \<lparr>app = app_init, fbMobile = None, fbDesktop = None, ciMobile = None, ciDesktop = None\<rparr>"

fun fb_slot :: "inst \<Rightarrow> client \<Rightarrow> fb_state option" where
  "fb_slot Mobile c = fbMobile c"
| "fb_slot Desktop c = fbDesktop c"

fun set_fb :: "inst \<Rightarrow> fb_state \<Rightarrow> client \<Rightarrow> client" where
  "set_fb Mobile f c = c\<lparr>fbMobile := Some f\<rparr>"
| "set_fb Desktop f c = c\<lparr>fbDesktop := Some f\<rparr>"

fun ci_slot :: "inst \<Rightarrow> client \<Rightarrow> ci_state option" where
  "ci_slot Mobile c = ciMobile c"
| "ci_slot Desktop c = ciDesktop c"

fun set_ci :: "inst \<Rightarrow> ci_state \<Rightarrow> client \<Rightarrow> client" where
  "set_ci Mobile f c = c\<lparr>ciMobile := Some f\<rparr>"
| "set_ci Desktop f c = c\<lparr>ciDesktop := Some f\<rparr>"

text \<open>
  Everything that happens to the client: the socket's events, a click on a tab, and the
  user's actions on one of the rendered components. Each handler runs to its end, with its
  state updates applied together, before the next event is taken.
\<close>

datatype event =
    Connect
  | Disconnect
  | Response response_data
  | ClickTab tab
  | FeedbackUI inst fb_event
  | ChatInputUI inst ci_event

fun client_step :: "event \<Rightarrow> client \<Rightarrow> emit list \<times> client" where
  "client_step Connect c = ([], render (c\<lparr>app := on_connect (app c)\<rparr>))"
| "client_step Disconnect c = ([], render (c\<lparr>app := on_disconnect (app c)\<rparr>))"
| "client_step (Response d) c = ([], render (c\<lparr>app := on_response d (app c)\<rparr>))"
| "client_step (ClickTab t) c = ([], render (c\<lparr>app := (app c)\<lparr>activeTab := t\<rparr>\<rparr>))"
| "client_step (FeedbackUI i ev) c =
     (case fb_slot i c of
        None \<Rightarrow> ([], c)
      | Some f \<Rightarrow>
          (case fb_step ev f of
             (Some (OnFeedback r txt), f') \<Rightarrow>
               (case sendFeedback r txt (app c) of
                  (out, a') \<Rightarrow> (out, render ((set_fb i f' c)\<lparr>app := a'\<rparr>)))
           | (_, f') \<Rightarrow> ([], set_fb i f' c)))"
| "client_step (ChatInputUI i ev) c =
     (case ci_slot i c of
        None \<Rightarrow> ([], c)
      | Some f \<Rightarrow>
          (case ci_step (\<not> connected (app c)) ev f of
             (Some m, f') \<Rightarrow>
               (case sendMessage m (app c) of
                  (out, a') \<Rightarrow> (out, render ((set_ci i f' c)\<lparr>app := a'\<rparr>)))
           | (None, f') \<Rightarrow> ([], set_ci i f' c)))"

text \<open>A session: the events in the order they happen, and everything the client sent.\<close>

fun run :: "event list \<Rightarrow> client \<Rightarrow> emit list \<times> client" where
  "run [] c = ([], c)"
| "run (e # es) c =
     (case client_step e c of
        (out, c') \<Rightarrow> (case run es c' of (outs, c'') \<Rightarrow> (out @ outs, c'')))"

section \<open>The interaction graph and the feedback loop\<close>

text \<open>
  The server that owns the graph is not among the sources: only the client that talks to
  it is. Every definition of this section is modelled from the specification of the core
  (its sections 3 and 4), in the specification's names. Operations run one at a time, each
  to its end, on a state that is passed in and returned; a rejection is a value of
  \<open>error\<close>. Rewards and averages are real numbers.
\<close>

text \<open>Modelled from the spec: the error taxonomy of its section 7.\<close>

datatype error = InvalidRating | UnknownInteraction | InsufficientData | TrainingInProgress

subsection \<open>Data model\<close>

text \<open>Modelled from the spec: node identifiers, assigned at creation and immutable.\<close>

type_synonym node_id = nat

text \<open>
  Modelled from the spec: the kinds of nodes (GraphNode), with the tool nodes that
  \<open>record_interaction\<close> creates.
\<close>

datatype node_kind = KInteraction | KFeedback | KTopic | KTool

text \<open>Modelled from the spec: the kinds of edges (GraphEdge).\<close>

datatype edge_kind = Produced | Rated | Discusses

text \<open>
  Modelled from the spec: the kind-specific payloads. An Interaction has a timestamp, the
  user's input, the agent's response, the action and the topics; a Feedback has the id of
  the interaction it rates, the rating, the tags, the derived reward and a timestamp.
\<close>

datatype payload =
    Interaction (i_timestamp: nat) (i_user_input: string) (i_agent_response: string)
      (i_action: string) (i_topics: "string list")
  | Feedback (f_interaction_id: node_id) (f_rating: int) (f_tags: "string list")
      (f_reward: real) (f_timestamp: nat)
  | Topic string
  | Tool string

text \<open>Modelled from the spec: GraphNode, an id and a payload; the kind is the payload's.\<close>

record graph_node =
  n_id :: node_id
  n_payload :: payload

text \<open>Modelled from the spec: the kind of a node, read off its payload.\<close>

fun kind_of :: "payload \<Rightarrow> node_kind" where
  "kind_of (Interaction ts ui ar act tps) = KInteraction"
| "kind_of (Feedback i r tgs rw ts) = KFeedback"
| "kind_of (Topic l) = KTopic"
| "kind_of (Tool nm) = KTool"

text \<open>Modelled from the spec: GraphEdge.\<close>

record graph_edge =
  e_source :: node_id
  e_target :: node_id
  e_kind :: edge_kind
  e_weight :: real

text \<open>
  Modelled from the spec: the graph as an arena of nodes and a separate list of edges
  (section 9), both append-only, with the next identifier to hand out. Identifiers are
  drawn from a counter that only grows; that they be hard to guess is outside the model.
\<close>

record graph =
  nodes :: "graph_node list"
  edges :: "graph_edge list"
  next_id :: node_id

text \<open>Modelled from the spec: the graph before any operation.\<close>

definition empty_graph :: graph where
  "empty_graph = \<lparr>nodes = [], edges = [], next_id = 0\<rparr>"

text \<open>
  Modelled from the spec: PerformanceSnapshot, in the shape the dashboard receives it
  (\<open>VisualizationPanelProps.data.performance\<close>): one entry per feedback event in each series.
\<close>

record performance =
  timestamps :: "nat list"
  ratings :: "int list"
  average_ratings :: "real list"
  accuracy :: "real list"
  rating_distribution :: "int \<rightharpoonup> nat"
  recent_average_rating :: "real list"

text \<open>Modelled from the spec: the cold start of the Metrics Engine, every series empty.\<close>

definition empty_performance :: performance where
  "empty_performance =
     \<lparr>timestamps = [], ratings = [], average_ratings = [], accuracy = [],
      rating_distribution = Map.empty, recent_average_rating = []\<rparr>"

text \<open>Modelled from the spec: TopicStats, in the shape of \<open>VisualizationPanelProps.data.topics\<close>.\<close>

record topic_stats =
  t_ratings :: "int list"
  t_timestamps :: "nat list"
  t_average_ratings :: "real list"

text \<open>Modelled from the spec: the statistics of a topic that has no rating yet.\<close>

definition empty_topic_stats :: topic_stats where
  "empty_topic_stats = \<lparr>t_ratings = [], t_timestamps = [], t_average_ratings = []\<rparr>"

text \<open>
  Modelled from the spec: the bounded state representation, a fixed-width encoding of an
  interaction's topic set over the topic vocabulary.
\<close>

type_synonym state_repr = "bool list"

text \<open>
  Modelled from the spec: Policy, a version timestamp and a function from the state
  representation to a probability for each action.
\<close>

record policy =
  version_timestamp :: nat
  probs :: "state_repr \<Rightarrow> string \<Rightarrow> real"

text \<open>Modelled from the spec: an episode, one (state, action, reward) triple.\<close>

type_synonym episode = "state_repr \<times> string \<times> real"

text \<open>
  Modelled from the spec: what the spec leaves to configuration or to collaborators. The
  known tool identifiers, the minimum number of episodes, the matching rules of the Topic
  Tagger (text and action to labels), and the policy optimisation pass, which returns the
  new action probabilities or fails.
\<close>

record config =
  known_tools :: "string list"
  min_episodes :: nat
  tagger_rules :: "string \<Rightarrow> string \<Rightarrow> string list"
  optimise :: "policy option \<Rightarrow> episode list \<Rightarrow> (state_repr \<Rightarrow> string \<Rightarrow> real) option"

text \<open>
  Modelled from the spec: the state of the core. The graph, the performance series, the
  per-topic statistics, the current policy (absent before the first training) and the
  versions retained.
\<close>

record core =
  graph :: graph
  perf :: performance
  topics :: "string \<rightharpoonup> topic_stats"
  current_policy :: "policy option"
  policy_versions :: "policy list"

text \<open>Modelled from the spec: the core before any operation, with no trained policy.\<close>

definition empty_core :: core where
  "empty_core =
     \<lparr>graph = empty_graph, perf = empty_performance, topics = Map.empty,
      current_policy = None, policy_versions = []\<rparr>"

subsection \<open>Topic Tagger and Interaction Recorder\<close>

text \<open>
  Modelled from the spec: the Topic Tagger. Unmatched input yields the label general rather
  than no label.
\<close>

definition topic_tagger :: "config \<Rightarrow> string \<Rightarrow> string \<Rightarrow> string list" where
  "topic_tagger cfg txt act =
     (case remdups (tagger_rules cfg txt act) of [] \<Rightarrow> [''general''] | ls \<Rightarrow> ls)"

text \<open>Modelled from the spec: the interaction nodes of the graph, in the order of their creation.\<close>

definition interaction_nodes :: "graph \<Rightarrow> graph_node list" where
  "interaction_nodes g = filter (\<lambda>n. kind_of (n_payload n) = KInteraction) (nodes g)"

text \<open>Modelled from the spec: a node is inserted under a fresh id.\<close>

definition add_node :: "payload \<Rightarrow> graph \<Rightarrow> node_id \<times> graph" where
  "add_node p g =
     (next_id g,
      g\<lparr>nodes := nodes g @ [\<lparr>n_id = next_id g, n_payload = p\<rparr>], next_id := Suc (next_id g)\<rparr>)"

text \<open>Modelled from the spec: an edge is appended to the list of edges.\<close>

definition add_edge :: "node_id \<Rightarrow> node_id \<Rightarrow> edge_kind \<Rightarrow> real \<Rightarrow> graph \<Rightarrow> graph" where
  "add_edge s t k w g =
     g\<lparr>edges := edges g @ [\<lparr>e_source = s, e_target = t, e_kind = k, e_weight = w\<rparr>]\<rparr>"

text \<open>Modelled from the spec: the tool node of a tool exists after this, and is created once.\<close>

definition ensure_tool :: "string \<Rightarrow> graph \<Rightarrow> node_id \<times> graph" where
  "ensure_tool nm g =
     (case find (\<lambda>n. n_payload n = Tool nm) (nodes g) of
        Some n \<Rightarrow> (n_id n, g)
      | None \<Rightarrow> add_node (Tool nm) g)"

text \<open>
  Modelled from the spec: \<open>record_interaction(user_input, agent_response, action)\<close> at the
  time \<open>now\<close>. It returns the new interaction's id.
\<close>

definition record_interaction ::
  "config \<Rightarrow> nat \<Rightarrow> string \<Rightarrow> string \<Rightarrow> string \<Rightarrow> core \<Rightarrow> node_id \<times> core" where
  "record_interaction cfg now user_input agent_response action s =
     (case add_node
             (Interaction now user_input agent_response action
                (topic_tagger cfg (user_input @ agent_response) action))
             (graph s) of
        (iid, g1) \<Rightarrow>
          (iid,
           s\<lparr>graph :=
               (if action \<in> set (known_tools cfg) then
                  (case ensure_tool action g1 of
                     (tid, g2) \<Rightarrow> add_edge tid iid Produced 1 g2)
                else g1)\<rparr>))"

subsection \<open>Feedback Aggregator and Metrics Engine\<close>

text \<open>Modelled from the spec: \<open>base_reward\<close> maps the ratings 1..5 linearly onto -1..1.\<close>

definition base_reward :: "int \<Rightarrow> real" where
  "base_reward r = (real_of_int r - 3) / 2"

text \<open>
  Modelled from the spec: the recognised tags and their deltas. The spec names these two;
  its scenarios give the label Helpful the delta of helpful, so a tag is looked up in lower
  case.
\<close>

definition TAG_DELTAS :: "(string \<times> real) list" where
  "TAG_DELTAS = [(''too verbose'', - 1 / 10), (''helpful'', 1 / 10)]"

text \<open>Modelled from the spec: the lower-case form of a letter, for the lookup of a tag.\<close>

definition to_lower :: "char \<Rightarrow> char" where
  "to_lower c =
     (case map_of (zip ''ABCDEFGHIJKLMNOPQRSTUVWXYZ'' ''abcdefghijklmnopqrstuvwxyz'') c of
        Some l \<Rightarrow> l
      | None \<Rightarrow> c)"

text \<open>Modelled from the spec: a tag is recognised when its lower-case form is in the table.\<close>

definition recognized :: "string \<Rightarrow> bool" where
  "recognized t = (map to_lower t \<in> set (map fst TAG_DELTAS))"

text \<open>Modelled from the spec: the delta of one tag, 0 for an unrecognised one.\<close>

definition tag_delta :: "string \<Rightarrow> real" where
  "tag_delta t = (case map_of TAG_DELTAS (map to_lower t) of Some d \<Rightarrow> d | None \<Rightarrow> 0)"

text \<open>Modelled from the spec: \<open>tag_adjustment\<close> adds the delta of every tag of the list.\<close>

definition tag_adjustment :: "string list \<Rightarrow> real" where
  "tag_adjustment ts = sum_list (map tag_delta ts)"

text \<open>Modelled from the spec: the reward is clamped to [-1, 1].\<close>

definition clamp :: "real \<Rightarrow> real" where
  "clamp x = max (- 1) (min 1 x)"

text \<open>Modelled from the spec: \<open>reward = base_reward(rating) + tag_adjustment(tags)\<close>, clamped.\<close>

definition reward :: "int \<Rightarrow> string list \<Rightarrow> real" where
  "reward r ts = clamp (base_reward r + tag_adjustment ts)"

text \<open>Modelled from the spec: the interaction node an id refers to, if there is one.\<close>

definition find_interaction :: "graph \<Rightarrow> node_id \<Rightarrow> graph_node option" where
  "find_interaction g i = find (\<lambda>n. n_id n = i) (interaction_nodes g)"

text \<open>Modelled from the spec: the average of a window of ratings.\<close>

definition mean :: "int list \<Rightarrow> real" where
  "mean xs = real_of_int (sum_list xs) / real (length xs)"

text \<open>Modelled from the spec: the trailing window of a series, its last \<open>k\<close> entries.\<close>

definition last_n :: "nat \<Rightarrow> 'a list \<Rightarrow> 'a list" where
  "last_n k xs = drop (length xs - k) xs"

text \<open>
  Modelled from the spec: the running average \<open>avg += (rating - avg) / n\<close>, from the last
  average of the series (0 before the first rating).
\<close>

definition next_average :: "real list \<Rightarrow> nat \<Rightarrow> int \<Rightarrow> real" where
  "next_average avgs n r =
     (let avg = (case avgs of [] \<Rightarrow> 0 | _ \<Rightarrow> last avgs)
      in avg + (real_of_int r - avg) / real n)"

text \<open>
  Modelled from the spec: the Metrics Engine's update of the PerformanceSnapshot on a
  feedback event. Every submission is counted, as the invariant on
  \<open>rating_distribution\<close> in the spec's section 8 has it.
\<close>

definition update_performance :: "nat \<Rightarrow> int \<Rightarrow> performance \<Rightarrow> performance" where
  "update_performance now r p =
     (let rs = ratings p @ [r]; n = length rs
      in p\<lparr>timestamps := timestamps p @ [now],
           ratings := rs,
           average_ratings := average_ratings p @ [next_average (average_ratings p) n r],
           accuracy := accuracy p @ [real (length (filter (\<lambda>x. 4 \<le> x) rs)) / real n * 100],
           rating_distribution :=
             (rating_distribution p)
               (r \<mapsto> (case rating_distribution p r of None \<Rightarrow> 1 | Some k \<Rightarrow> Suc k)),
           recent_average_rating := recent_average_rating p @ [mean (last_n 10 rs)]\<rparr>)"

text \<open>Modelled from the spec: the update of one topic's TopicStats.\<close>

definition update_topic :: "nat \<Rightarrow> int \<Rightarrow> topic_stats \<Rightarrow> topic_stats" where
  "update_topic now r t =
     (let rs = t_ratings t @ [r]
      in t\<lparr>t_ratings := rs,
           t_timestamps := t_timestamps t @ [now],
           t_average_ratings :=
             t_average_ratings t @ [next_average (t_average_ratings t) (length rs) r]\<rparr>)"

text \<open>Modelled from the spec: the update of the TopicStats of every topic of the rated interaction.\<close>

fun update_topics ::
  "nat \<Rightarrow> int \<Rightarrow> string list \<Rightarrow> (string \<rightharpoonup> topic_stats) \<Rightarrow> (string \<rightharpoonup> topic_stats)" where
  "update_topics now r [] m = m"
| "update_topics now r (l # ls) m =
     update_topics now r ls
       (m(l \<mapsto> update_topic now r (case m l of None \<Rightarrow> empty_topic_stats | Some t \<Rightarrow> t)))"

text \<open>Modelled from the spec: the acknowledgement of a recorded feedback.\<close>

datatype ack = Ack

text \<open>
  Modelled from the spec: \<open>record_feedback(interaction_id, rating, tags)\<close> at the time
  \<open>now\<close>, with the checks in the order the spec lists them. A rejected submission leaves
  the state as it was.
\<close>

definition record_feedback ::
  "nat \<Rightarrow> node_id \<Rightarrow> int \<Rightarrow> string list \<Rightarrow> core \<Rightarrow> (error + ack) \<times> core" where
  "record_feedback now interaction_id rating tags s =
     (if rating < 1 \<or> 5 < rating then (Inl InvalidRating, s)
      else
        (case find_interaction (graph s) interaction_id of
           None \<Rightarrow> (Inl UnknownInteraction, s)
         | Some n \<Rightarrow>
             (case add_node (Feedback interaction_id rating tags (reward rating tags) now)
                     (graph s) of
                (fid, g1) \<Rightarrow>
                  (Inr Ack,
                   s\<lparr>graph := add_edge interaction_id fid Rated (reward rating tags) g1,
                     perf := update_performance now rating (perf s),
                     topics := update_topics now rating (i_topics (n_payload n)) (topics s)\<rparr>))))"

subsection \<open>Policy Trainer, Policy Advisor and Graph Exporter\<close>

text \<open>Modelled from the spec: the topic vocabulary the state representation ranges over.\<close>

definition TOPIC_VOCABULARY :: "string list" where
  "TOPIC_VOCABULARY = [''rates'', ''eligibility'', ''payments'', ''general'']"

text \<open>Modelled from the spec: the encoding of a topic set, one flag per label of the vocabulary.\<close>

definition encode_state :: "string list \<Rightarrow> state_repr" where
  "encode_state tps = map (\<lambda>v. v \<in> set tps) TOPIC_VOCABULARY"

text \<open>
  Modelled from the spec: the reward of the most recent feedback on an interaction; the
  nodes are in the order of their creation.
\<close>

definition latest_reward :: "graph \<Rightarrow> node_id \<Rightarrow> real option" where
  "latest_reward g i =
     (case filter (\<lambda>n. kind_of (n_payload n) = KFeedback \<and> f_interaction_id (n_payload n) = i)
             (nodes g) of
        [] \<Rightarrow> None
      | fs \<Rightarrow> Some (f_reward (n_payload (last fs))))"

text \<open>
  Modelled from the spec: the episode set, one triple per interaction that has at least
  one feedback node.
\<close>

definition build_episodes :: "graph \<Rightarrow> episode list" where
  "build_episodes g =
     List.map_filter
       (\<lambda>n. case latest_reward g (n_id n) of
               None \<Rightarrow> None
             | Some rw \<Rightarrow>
                 Some (encode_state (i_topics (n_payload n)), i_action (n_payload n), rw))
       (interaction_nodes g)"

text \<open>Modelled from the spec: the aggregates reported before and after a training.\<close>

record metrics =
  m_average_rating :: "real option"
  m_recent_average_rating :: "real option"
  m_accuracy :: "real option"
  m_count :: nat

text \<open>Modelled from the spec: the current value of a series, absent while the series is empty.\<close>

definition last_opt :: "'a list \<Rightarrow> 'a option" where
  "last_opt xs = (case xs of [] \<Rightarrow> None | _ \<Rightarrow> Some (last xs))"

text \<open>Modelled from the spec: the current aggregates of the PerformanceSnapshot.\<close>

definition metrics_of :: "performance \<Rightarrow> metrics" where
  "metrics_of p =
     \<lparr>m_average_rating = last_opt (average_ratings p),
      m_recent_average_rating = last_opt (recent_average_rating p),
      m_accuracy = last_opt (accuracy p),
      m_count = length (ratings p)\<rparr>"

text \<open>Modelled from the spec: the status of the result object of \<open>train()\<close>.\<close>

datatype train_status = Success | Error

text \<open>Modelled from the spec: the fields of the result object.\<close>

record train_result =
  status :: train_status
  result_version :: "nat option"
  before_metrics :: metrics
  after_metrics :: metrics

text \<open>
  Modelled from the spec: \<open>train()\<close>, completing at the time \<open>now\<close>. Too few episodes are
  refused; an optimisation that fails is reported in the result object; otherwise the new
  version replaces the current policy in one step. No training run is in flight when an
  operation starts, since operations run one at a time.
\<close>

definition train :: "config \<Rightarrow> nat \<Rightarrow> core \<Rightarrow> (error + train_result) \<times> core" where
  "train cfg now s =
     (let eps = build_episodes (graph s) in
      if length eps < min_episodes cfg then (Inl InsufficientData, s)
      else
        (let before = metrics_of (perf s) in
         case optimise cfg (current_policy s) eps of
           None \<Rightarrow>
             (Inr \<lparr>status = Error,
                   result_version = map_option version_timestamp (current_policy s),
                   before_metrics = before, after_metrics = before\<rparr>, s)
         | Some f \<Rightarrow>
             (let p = \<lparr>version_timestamp = now, probs = f\<rparr>;
                  s' = s\<lparr>current_policy := Some p, policy_versions := policy_versions s @ [p]\<rparr>
              in (Inr \<lparr>status = Success, result_version = Some now,
                        before_metrics = before, after_metrics = metrics_of (perf s')\<rparr>, s'))))"

text \<open>Modelled from the spec: the fixed action set, the known tools and the general response.\<close>

definition actions :: "config \<Rightarrow> string list" where
  "actions cfg = known_tools cfg @ [''general'']"

text \<open>Modelled from the spec: the top action of a distribution, the first of the largest.\<close>

fun top_action :: "(string \<times> real) list \<Rightarrow> string" where
  "top_action [] = ''general''"
| "top_action (x # xs) = fst (foldl (\<lambda>best y. if snd best < snd y then y else best) x xs)"

text \<open>Modelled from the spec: the answer of \<open>suggest\<close>, \<open>(action, distribution, is_untrained)\<close>.\<close>

record suggestion =
  s_action :: string
  s_distribution :: "(string \<times> real) list"
  is_untrained :: bool

text \<open>
  Modelled from the spec: \<open>suggest(state)\<close>. It reads the current policy and nothing else;
  without one it returns the fallback.
\<close>

definition suggest :: "config \<Rightarrow> state_repr \<Rightarrow> core \<Rightarrow> suggestion \<times> core" where
  "suggest cfg st s =
     (case current_policy s of
        None \<Rightarrow>
          (\<lparr>s_action = ''general'', s_distribution = [(''general'', 1)], is_untrained = True\<rparr>, s)
      | Some p \<Rightarrow>
          (let d = map (\<lambda>a. (a, probs p st a)) (actions cfg)
           in (\<lparr>s_action = top_action d, s_distribution = d, is_untrained = False\<rparr>, s)))"

text \<open>Modelled from the spec: the snapshot that \<open>export()\<close> returns.\<close>

record snapshot =
  snap_nodes :: "graph_node list"
  snap_edges :: "graph_edge list"
  snap_performance :: performance
  snap_topics :: "string \<rightharpoonup> topic_stats"
  snap_policy_version :: "nat option"

text \<open>Modelled from the spec: \<open>export()\<close>.\<close>

definition export :: "core \<Rightarrow> snapshot \<times> core" where
  "export s =
     (\<lparr>snap_nodes = nodes (graph s), snap_edges = edges (graph s),
       snap_performance = perf s, snap_topics = topics s,
       snap_policy_version = map_option version_timestamp (current_policy s)\<rparr>, s)"

subsection \<open>Sequences of operations\<close>

text \<open>Modelled from the spec: the operations exposed to the transport, with their arguments.\<close>

datatype op =
    RecordInteraction nat string string string
  | RecordFeedback nat node_id int "string list"
  | Train nat
  | Suggest state_repr
  | Export

text \<open>Modelled from the spec: what each operation returns.\<close>

datatype outcome =
    InteractionId node_id
  | FeedbackResult "error + ack"
  | TrainResult "error + train_result"
  | Suggestion suggestion
  | Snapshot snapshot

text \<open>Modelled from the spec: one operation applied to the state of the core.\<close>

fun apply_op :: "config \<Rightarrow> op \<Rightarrow> core \<Rightarrow> outcome \<times> core" where
  "apply_op cfg (RecordInteraction now ui ar act) s =
     (case record_interaction cfg now ui ar act s of (i, s') \<Rightarrow> (InteractionId i, s'))"
| "apply_op cfg (RecordFeedback now i r ts) s =
     (case record_feedback now i r ts s of (res, s') \<Rightarrow> (FeedbackResult res, s'))"
| "apply_op cfg (Train now) s =
     (case train cfg now s of (res, s') \<Rightarrow> (TrainResult res, s'))"
| "apply_op cfg (Suggest st) s =
     (case suggest cfg st s of (res, s') \<Rightarrow> (Suggestion res, s'))"
| "apply_op cfg Export s =
     (case export s of (res, s') \<Rightarrow> (Snapshot res, s'))"

text \<open>Modelled from the spec: a history of operations, applied one after the other.\<close>

fun run_ops :: "config \<Rightarrow> op list \<Rightarrow> core \<Rightarrow> outcome list \<times> core" where
  "run_ops cfg [] s = ([], s)"
| "run_ops cfg (x # xs) s =
     (case apply_op cfg x s of
        (r, s') \<Rightarrow> (case run_ops cfg xs s' of (rs, s'') \<Rightarrow> (r # rs, s'')))"

text \<open>Modelled from the spec: the operations that are calls of \<open>record_interaction\<close>.\<close>

fun is_record_interaction :: "op \<Rightarrow> bool" where
  "is_record_interaction (RecordInteraction now ui ar act) = True"
| "is_record_interaction _ = False"


section \<open>The client's view of the server\<close>


section \<open>Vocabulary of the properties\<close>

subsection \<open>Sessions of the client\<close>

text \<open>
  How many feedback events of a session's output refer to the interaction id \<open>i\<close>, how many
  \<open>response\<close> events of a session carried it, and whether the client is holding it for a
  feedback still to be sent.
\<close>

definition feedback_count :: "string \<Rightarrow> emit list \<Rightarrow> nat" where
  "feedback_count i out =
     length (filter (\<lambda>e. case e of FeedbackEmit j r t \<Rightarrow> j = i | ChatMessageEmit m \<Rightarrow> False) out)"

definition delivered_count :: "string \<Rightarrow> event list \<Rightarrow> nat" where
  "delivered_count i evs =
     length (filter (\<lambda>e. case e of Response d \<Rightarrow> rd_interaction_id d = i | _ \<Rightarrow> False) evs)"

definition pending :: "string \<Rightarrow> app_state \<Rightarrow> nat" where
  "pending i a = (if lastInteractionId a = Some i then 1 else 0)"

text \<open>
  The invariant of the rendered feedback forms: a selected rating is one of the five
  buttons' values, and the selected tags are distinct members of \<open>FEEDBACK_TAGS\<close>.
\<close>

definition rating_ok :: "fb_state \<Rightarrow> bool" where
  "rating_ok f = (case selectedRating f of None \<Rightarrow> True | Some r \<Rightarrow> r \<in> {1, 2, 3, 4, 5})"

definition tags_ok :: "fb_state \<Rightarrow> bool" where
  "tags_ok f = (distinct (selectedTags f) \<and> set (selectedTags f) \<subseteq> set FEEDBACK_TAGS)"

definition client_inv :: "client \<Rightarrow> bool" where
  "client_inv c =
     (\<forall>i. case fb_slot i c of None \<Rightarrow> True | Some f \<Rightarrow> rating_ok f \<and> tags_ok f)"

subsection \<open>Histories of the core\<close>

text \<open>
  The invariant of the graph: no two nodes share an id, and every id in use is below the
  next one to hand out.
\<close>

definition graph_inv :: "graph \<Rightarrow> bool" where
  "graph_inv g = (distinct (map n_id (nodes g)) \<and> (\<forall>n\<in>set (nodes g). n_id n < next_id g))"

text \<open>The ids that the \<open>record_interaction\<close> calls of a history returned, in order.\<close>

fun returned_ids :: "outcome list \<Rightarrow> node_id list" where
  "returned_ids [] = []"
| "returned_ids (InteractionId i # rs) = i # returned_ids rs"
| "returned_ids (_ # rs) = returned_ids rs"

text \<open>
  A configuration for the examples: the tools the client's selector offers, a minimum of two
  episodes, a tagger that matches nothing and an optimiser that fails.
\<close>

definition example_config :: config where
  "example_config =
     \<lparr>known_tools = filter truthy (map opt_value TOOL_OPTIONS), min_episodes = 2,
      tagger_rules = (\<lambda>txt act. []), optimise = (\<lambda>p eps. None)\<rparr>"

text \<open>
  The core after one interaction recorded in the empty graph, the one of the spec's first
  scenario: the action is the mortgage calculator.
\<close>

definition example_core :: core where
  "example_core =
     snd (record_interaction example_config 3 ''What is the payment?'' ''About 1896 a month.''
            ''mortgage_calculator'' empty_core)"

text \<open>A response of the server that carries the interaction id \<open>A\<close>.\<close>

definition response_A :: response_data where
  "response_A = \<lparr>rd_message = ''ok'', rd_thinking = [], rd_interaction_id = ''A''\<rparr>"

section \<open>Properties of the client\<close>

subsection \<open>Auxiliary facts\<close>

lemma dropWhile_all_iff: "(\<forall>c\<in>set (dropWhile P s). P c) \<longleftrightarrow> (\<forall>c\<in>set s. P c)"
proof
  assume a: "\<forall>c\<in>set (dropWhile P s). P c"
  have "dropWhile P s = []"
  proof (rule ccontr)
    assume n: "dropWhile P s \<noteq> []"
    then have "\<not> P (hd (dropWhile P s))" by (rule hd_dropWhile)
    moreover have "hd (dropWhile P s) \<in> set (dropWhile P s)"
      using n by simp
    ultimately show False using a by blast
  qed
  then show "\<forall>c\<in>set s. P c" by simp
next
  assume "\<forall>c\<in>set s. P c"
  then show "\<forall>c\<in>set (dropWhile P s). P c"
    by (blast dest: set_dropWhileD)
qed

lemma trim_Nil_iff: "trim s = [] \<longleftrightarrow> (\<forall>c\<in>set s. isWhiteSpace c)"
  by (simp add: trim_def dropWhile_all_iff)

lemma fb_init_ok: "rating_ok fb_init \<and> tags_ok fb_init"
  by (simp add: rating_ok_def tags_ok_def fb_init_def)

lemma fb_step_ok:
  assumes "rating_ok f" "tags_ok f"
  shows "rating_ok (snd (fb_step ev f)) \<and> tags_ok (snd (fb_step ev f))"
proof (cases ev)
  case (ClickRating k)
  have "k < 5 \<Longrightarrow> [1, 2, 3, 4, 5 :: int] ! k \<in> {1, 2, 3, 4, 5}"
    by (simp add: nth_Cons' )
  with assms ClickRating show ?thesis
    by (simp add: rating_ok_def tags_ok_def RATING_BUTTONS_def)
next
  case (ClickTag k)
  with assms show ?thesis
    by (auto simp: rating_ok_def tags_ok_def handleTagToggle_def)
next
  case ClickSubmit
  with assms show ?thesis
    by (auto simp: rating_ok_def tags_ok_def fb_handleSubmit_def submitDisabled_def
        split: option.splits)
qed

lemma fb_step_call:
  "fst (fb_step ev f) = Some (OnFeedback r t) \<Longrightarrow>
     ev = ClickSubmit \<and> selectedRating f = Some r \<and> t = join '', '' (selectedTags f)"
  by (cases ev) (auto simp: fb_handleSubmit_def submitDisabled_def split: option.splits if_splits)

lemma render_app: "app (render c) = app c"
  by (simp add: render_def)

lemma render_inv: "client_inv c \<Longrightarrow> client_inv (render c)"
  unfolding client_inv_def
proof
  fix i assume a: "\<forall>i. case fb_slot i c of None \<Rightarrow> True | Some f \<Rightarrow> rating_ok f \<and> tags_ok f"
  from a[rule_format, of Mobile] a[rule_format, of Desktop] fb_init_ok
  show "case fb_slot i (render c) of None \<Rightarrow> True | Some f \<Rightarrow> rating_ok f \<and> tags_ok f"
    by (cases i) (auto simp: render_def mounted_def split: option.splits)
qed

lemma inv_app_update: "client_inv (c\<lparr>app := a\<rparr>) = client_inv c"
proof -
  have "\<And>i. fb_slot i (c\<lparr>app := a\<rparr>) = fb_slot i c"
    subgoal for i by (cases i) simp_all
    done
  then show ?thesis by (simp add: client_inv_def)
qed

lemma inv_set_ci: "client_inv (set_ci i f c) = client_inv c"
proof -
  have "\<And>j. fb_slot j (set_ci i f c) = fb_slot j c"
    subgoal for j by (cases i; cases j) simp_all
    done
  then show ?thesis by (simp add: client_inv_def)
qed

lemma inv_set_fb:
  assumes "client_inv c" "rating_ok f" "tags_ok f"
  shows "client_inv (set_fb i f c)"
  unfolding client_inv_def
proof
  fix j
  from assms(1) have "case fb_slot j c of None \<Rightarrow> True | Some f \<Rightarrow> rating_ok f \<and> tags_ok f"
    by (simp add: client_inv_def)
  with assms(2,3)
  show "case fb_slot j (set_fb i f c) of None \<Rightarrow> True | Some f \<Rightarrow> rating_ok f \<and> tags_ok f"
    by (cases i; cases j) (auto split: option.splits)
qed

lemma inv_slot: "client_inv c \<Longrightarrow> fb_slot i c = Some f \<Longrightarrow> rating_ok f \<and> tags_ok f"
  by (auto simp: client_inv_def split: option.splits dest: spec[of _ i])

lemma step_inv: "client_inv c \<Longrightarrow> client_inv (snd (client_step ev c))"
proof (cases ev)
  case (FeedbackUI i fe)
  assume inv: "client_inv c"
  show ?thesis
  proof (cases "fb_slot i c")
    case None
    with FeedbackUI inv show ?thesis by simp
  next
    case (Some f)
    obtain eff f' where st: "fb_step fe f = (eff, f')" by (cases "fb_step fe f")
    from inv_slot[OF inv Some] fb_step_ok[of f fe] st have ok: "rating_ok f'" "tags_ok f'"
      by simp_all
    have s1: "client_inv (set_fb i f' c)" using inv ok by (rule inv_set_fb)
    show ?thesis
      using FeedbackUI Some st s1
      by (auto simp: inv_app_update render_inv split: option.splits fb_effect.splits prod.splits)
  qed
next
  case (ChatInputUI i ce)
  assume inv: "client_inv c"
  then show ?thesis
    using ChatInputUI
    by (auto simp: inv_app_update inv_set_ci render_inv split: option.splits prod.splits)
qed (auto simp: inv_app_update render_inv)

lemma sendMessage_emit:
  "e \<in> set (fst (sendMessage m a)) \<Longrightarrow> e = ChatMessageEmit m \<and> trim m \<noteq> []"
  by (auto simp: sendMessage_def Let_def split: if_splits)

lemma sendFeedback_emit:
  "e \<in> set (fst (sendFeedback r t a)) \<Longrightarrow>
     \<exists>i. e = FeedbackEmit i r t \<and> lastInteractionId a = Some i \<and> truthy i"
  by (auto simp: sendFeedback_def Let_def split: if_splits option.splits)

lemma step_emit:
  assumes "e \<in> set (fst (client_step ev c))"
  shows "(\<exists>m. e = ChatMessageEmit m \<and> trim m \<noteq> []) \<or>
         (\<exists>i r inst f. e = FeedbackEmit i r (join '', '' (selectedTags f)) \<and>
            fb_slot inst c = Some f \<and> selectedRating f = Some r \<and>
            lastInteractionId (app c) = Some i \<and> truthy i)"
proof (cases ev)
  case (FeedbackUI i fe)
  show ?thesis
  proof (cases "fb_slot i c")
    case None
    with FeedbackUI assms show ?thesis by simp
  next
    case (Some f)
    obtain eff f' where st: "fb_step fe f = (eff, f')" by (cases "fb_step fe f")
    show ?thesis
    proof (cases eff)
      case None
      with FeedbackUI Some st assms show ?thesis by simp
    next
      case (Some x)
      show ?thesis
      proof (cases x)
        case (OnFeedback r t)
        with st Some have "fst (fb_step fe f) = Some (OnFeedback r t)" by simp
        from fb_step_call[OF this] have sr: "selectedRating f = Some r" "t = join '', '' (selectedTags f)"
          by simp_all
        from assms FeedbackUI \<open>fb_slot i c = Some f\<close> st Some OnFeedback
        have "e \<in> set (fst (sendFeedback r t (app c)))"
          by (auto split: prod.splits)
        from sendFeedback_emit[OF this] sr \<open>fb_slot i c = Some f\<close> show ?thesis by blast
      next
        case (Alert x2)
        with FeedbackUI \<open>fb_slot i c = Some f\<close> st Some assms show ?thesis by simp
      qed
    qed
  qed
next
  case (ChatInputUI i ce)
  show ?thesis
  proof (cases "ci_slot i c")
    case None
    with ChatInputUI assms show ?thesis by simp
  next
    case (Some f)
    obtain om f' where st: "ci_step (\<not> connected (app c)) ce f = (om, f')"
      by (cases "ci_step (\<not> connected (app c)) ce f")
    show ?thesis
    proof (cases om)
      case None
      with ChatInputUI \<open>ci_slot i c = Some f\<close> st assms show ?thesis by simp
    next
      case (Some m)
      with ChatInputUI \<open>ci_slot i c = Some f\<close> st assms
      have "e \<in> set (fst (sendMessage m (app c)))"
        by (auto split: prod.splits)
      from sendMessage_emit[OF this] show ?thesis by blast
    qed
  qed
qed (use assms in auto)


lemma run_Cons_snd: "snd (run (ev # evs) c) = snd (run evs (snd (client_step ev c)))"
  by (simp split: prod.splits)

lemma init_inv: "client_inv client_init"
proof -
  let ?c = "\<lparr>app = app_init, fbMobile = None, fbDesktop = None, ciMobile = None, ciDesktop = None\<rparr>"
  have "fb_slot i ?c = None" for i by (cases i) simp_all
  then have "client_inv ?c" by (simp add: client_inv_def)
  then show ?thesis unfolding client_init_def by (rule render_inv)
qed

lemma run_inv: "client_inv c \<Longrightarrow> client_inv (snd (run evs c))"
proof (induction evs arbitrary: c)
  case Nil
  then show ?case by simp
next
  case (Cons ev evs)
  from step_inv[OF Cons.prems] have "client_inv (snd (client_step ev c))" .
  from Cons.IH[OF this] show ?case
    by (simp only: run_Cons_snd)
qed

lemma run_emit_cases:
  assumes "e \<in> set (fst (run evs c))"
  shows "\<exists>pre ev post. evs = pre @ ev # post \<and> e \<in> set (fst (client_step ev (snd (run pre c))))"
  using assms
proof (induction evs arbitrary: c)
  case Nil
  then show ?case by simp
next
  case (Cons a evs)
  obtain out c' where st: "client_step a c = (out, c')" by (cases "client_step a c")
  from Cons.prems st have "e \<in> set out \<or> e \<in> set (fst (run evs c'))"
    by (auto split: prod.splits)
  then show ?case
  proof
    assume "e \<in> set out"
    with st have "a # evs = [] @ a # evs \<and> e \<in> set (fst (client_step a (snd (run [] c))))"
      by simp
    then show ?thesis by blast
  next
    assume "e \<in> set (fst (run evs c'))"
    from Cons.IH[OF this] obtain pre ev post where
      p: "evs = pre @ ev # post" "e \<in> set (fst (client_step ev (snd (run pre c'))))" by blast
    have "snd (run (a # pre) c) = snd (run pre c')" using st by (simp split: prod.splits)
    with p have "a # evs = (a # pre) @ ev # post \<and> e \<in> set (fst (client_step ev (snd (run (a # pre) c))))"
      by simp
    then show ?thesis by blast
  qed
qed

lemma run_emit:
  assumes inv: "client_inv c" and e: "e \<in> set (fst (run evs c))"
  shows "(\<exists>m. e = ChatMessageEmit m \<and> trim m \<noteq> []) \<or>
         (\<exists>i r ts. e = FeedbackEmit i r (join '', '' ts) \<and> r \<in> {1, 2, 3, 4, 5} \<and>
            distinct ts \<and> set ts \<subseteq> set FEEDBACK_TAGS \<and> truthy i)"
proof -
  from run_emit_cases[OF e] obtain pre ev post where
    p: "evs = pre @ ev # post" "e \<in> set (fst (client_step ev (snd (run pre c))))" by blast
  let ?c = "snd (run pre c)"
  have ci: "client_inv ?c" using inv by (rule run_inv)
  from step_emit[OF p(2)] show ?thesis
  proof
    assume "\<exists>m. e = ChatMessageEmit m \<and> trim m \<noteq> []"
    then show ?thesis by blast
  next
    assume "\<exists>i r inst f. e = FeedbackEmit i r (join '', '' (selectedTags f)) \<and>
            fb_slot inst ?c = Some f \<and> selectedRating f = Some r \<and>
            lastInteractionId (app ?c) = Some i \<and> truthy i"
    then obtain i r inst f where
      f: "e = FeedbackEmit i r (join '', '' (selectedTags f))" "fb_slot inst ?c = Some f"
         "selectedRating f = Some r" "truthy i" by blast
    from inv_slot[OF ci f(2)] f(3) have "r \<in> {1, 2, 3, 4, 5}" "distinct (selectedTags f)"
      "set (selectedTags f) \<subseteq> set FEEDBACK_TAGS"
      by (simp_all add: rating_ok_def tags_ok_def)
    with f show ?thesis by blast
  qed
qed

lemma sendFeedback_pending:
  "feedback_count i (fst (sendFeedback r t a)) + pending i (snd (sendFeedback r t a)) \<le> pending i a"
  by (simp add: sendFeedback_def feedback_count_def pending_def Let_def split: option.splits)

lemma sendMessage_pending:
  "feedback_count i (fst (sendMessage m a)) + pending i (snd (sendMessage m a)) \<le> pending i a"
  by (simp add: sendMessage_def feedback_count_def pending_def Let_def)

lemma on_response_pending:
  "pending i (on_response d a) \<le> (if rd_interaction_id d = i then 1 else 0) + pending i a"
  by (simp add: on_response_def pending_def Let_def)

lemma step_pending:
  "feedback_count i (fst (client_step ev c)) + pending i (app (snd (client_step ev c)))
     \<le> delivered_count i [ev] + pending i (app c)"
proof (cases ev)
  case (Response d)
  with on_response_pending[of i d "app c"] show ?thesis
    by (auto simp: feedback_count_def delivered_count_def render_app split: if_splits)
next
  case (FeedbackUI inst fe)
  have a: "\<And>f. app (set_fb inst f c) = app c" subgoal for f by (cases inst) simp_all done
  show ?thesis
  proof (cases "fb_slot inst c")
    case None
    with FeedbackUI show ?thesis by (simp add: feedback_count_def)
  next
    case (Some f)
    obtain eff f' where st: "fb_step fe f = (eff, f')" by (cases "fb_step fe f")
    show ?thesis
    proof (cases eff)
      case None
      with FeedbackUI \<open>fb_slot inst c = Some f\<close> st a show ?thesis by (simp add: feedback_count_def)
    next
      case (Some x)
      show ?thesis
      proof (cases x)
        case (OnFeedback r t)
        obtain out a' where sf: "sendFeedback r t (app c) = (out, a')"
          by (cases "sendFeedback r t (app c)")
        with sendFeedback_pending[of i r t "app c"]
        have "feedback_count i out + pending i a' \<le> pending i (app c)" by simp
        with FeedbackUI \<open>fb_slot inst c = Some f\<close> st Some OnFeedback sf
        show ?thesis
          by (simp add: render_app)
      next
        case (Alert x2)
        with FeedbackUI \<open>fb_slot inst c = Some f\<close> st Some a show ?thesis
          by (simp add: feedback_count_def)
      qed
    qed
  qed
next
  case (ChatInputUI inst ce)
  have a: "\<And>f. app (set_ci inst f c) = app c" subgoal for f by (cases inst) simp_all done
  show ?thesis
  proof (cases "ci_slot inst c")
    case None
    with ChatInputUI show ?thesis by (simp add: feedback_count_def)
  next
    case (Some f)
    obtain om f' where st: "ci_step (\<not> connected (app c)) ce f = (om, f')"
      by (cases "ci_step (\<not> connected (app c)) ce f")
    show ?thesis
    proof (cases om)
      case None
      with ChatInputUI \<open>ci_slot inst c = Some f\<close> st a show ?thesis by (simp add: feedback_count_def)
    next
      case (Some m)
      obtain out a' where sm: "sendMessage m (app c) = (out, a')"
        by (cases "sendMessage m (app c)")
      with sendMessage_pending[of i m "app c"]
      have "feedback_count i out + pending i a' \<le> pending i (app c)" by simp
      with ChatInputUI \<open>ci_slot inst c = Some f\<close> st Some sm
      show ?thesis
        by (simp add: render_app)
    qed
  qed
qed (simp_all add: feedback_count_def render_app pending_def on_connect_def on_disconnect_def)

lemma feedback_count_append:
  "feedback_count i (xs @ ys) = feedback_count i xs + feedback_count i ys"
  by (simp add: feedback_count_def)

lemma delivered_count_Cons:
  "delivered_count i (e # es) = delivered_count i [e] + delivered_count i es"
  by (simp add: delivered_count_def)

lemma run_pending:
  "feedback_count i (fst (run evs c)) + pending i (app (snd (run evs c)))
     \<le> delivered_count i evs + pending i (app c)"
proof (induction evs arbitrary: c)
  case Nil
  then show ?case by (simp add: feedback_count_def delivered_count_def)
next
  case (Cons ev evs)
  obtain out c' where st: "client_step ev c = (out, c')" by (cases "client_step ev c")
  from step_pending[of i ev c] st
  have 1: "feedback_count i out + pending i (app c') \<le> delivered_count i [ev] + pending i (app c)"
    by simp
  from Cons.IH[of c']
  have 2: "feedback_count i (fst (run evs c')) + pending i (app (snd (run evs c')))
     \<le> delivered_count i evs + pending i (app c')" .
  have "fst (run (ev # evs) c) = out @ fst (run evs c')" "snd (run (ev # evs) c) = snd (run evs c')"
    using st by (simp_all split: prod.splits)
  with 1 2 show ?case
    by (simp add: feedback_count_append delivered_count_Cons[of i ev evs])
qed






subsection \<open>Sessions used as examples\<close>

lemmas session_defs =
  client_init_def render_def mounted_def app_init_def showsFeedback_def on_response_def
  on_connect_def ci_init_def fb_init_def truthy_def sendFeedback_def sendMessage_def
  RATING_BUTTONS_def FEEDBACK_TAGS_def handleTagToggle_def submitDisabled_def
  fb_handleSubmit_def ci_handleSubmit_def trim_def isWhiteSpace_def response_A_def Let_def

lemma rated_session:
  "fst (run [Response response_A, FeedbackUI Desktop (ClickRating 4),
             FeedbackUI Desktop ClickSubmit] client_init)
     = [FeedbackEmit ''A'' 5 []]"
  by (simp add: session_defs)


lemma repeated_id_session:
  "fst (run [Response response_A, FeedbackUI Desktop (ClickRating 3),
             FeedbackUI Desktop ClickSubmit,
             Response response_A, FeedbackUI Desktop (ClickRating 0),
             FeedbackUI Desktop ClickSubmit] client_init)
     = [FeedbackEmit ''A'' 4 [], FeedbackEmit ''A'' 1 []]"
  by (simp add: session_defs)

lemma chat_session:
  "fst (run [Connect, ChatInputUI Desktop (SelectOption 3), ChatInputUI Desktop SubmitForm,
             ChatInputUI Desktop (SelectOption 0), ChatInputUI Desktop (Type '' ''),
             ChatInputUI Desktop SubmitForm] client_init)
     = [ChatMessageEmit ''/tool interest_rate_info current rates'']"
  by (simp add: session_defs TOOL_OPTIONS_def ci_selectTool_def)

lemma reward_values:
  "reward 3 [''Helpful, Good answer''] = 0" "reward 3 [''Helpful'', ''Good answer''] = 1 / 10"
  "reward 5 [''Helpful''] = 1" "reward 1 [''Too verbose''] = - 1"
  by (simp_all add: reward_def clamp_def base_reward_def tag_adjustment_def tag_delta_def
      TAG_DELTAS_def to_lower_def)

subsection \<open>The claims about the client\<close>

text \<open>
  C10. The client never emits a \<open>chat_message\<close> event whose message is empty or only
  whitespace: \<open>sendMessage\<close> returns early, emitting nothing and changing nothing, when the
  trimmed message is empty; the submit handler of the chat input only forwards a message
  whose trimmed form is non-empty; and in every session, from every state of the client,
  each chat message sent has a code unit that is not whitespace.
\<close>

theorem no_blank_chat_message:
  "(trim m = [] \<longrightarrow> sendMessage m a = ([], a)) \<and>
   (fst (ci_handleSubmit disabled s) = Some m \<longrightarrow> trim m \<noteq> []) \<and>
   (ChatMessageEmit m \<in> set (fst (run evs c)) \<longrightarrow>
      trim m \<noteq> [] \<and> m \<noteq> [] \<and> (\<exists>ch\<in>set m. \<not> isWhiteSpace ch))"
proof (intro conjI impI)
  assume "trim m = []"
  then show "sendMessage m a = ([], a)" by (simp add: sendMessage_def)
next
  assume "fst (ci_handleSubmit disabled s) = Some m"
  then show "trim m \<noteq> []"
    by (auto simp: ci_handleSubmit_def truthy_def Let_def split: if_splits)
next
  assume e: "ChatMessageEmit m \<in> set (fst (run evs c))"
  from run_emit_cases[OF e] obtain pre ev post where
    "ChatMessageEmit m \<in> set (fst (client_step ev (snd (run pre c))))" by blast
  from step_emit[OF this] have t: "trim m \<noteq> []" by auto
  then have "\<not> (\<forall>ch\<in>set m. isWhiteSpace ch)" by (simp add: trim_Nil_iff)
  with t show "trim m \<noteq> []" "m \<noteq> []" "\<exists>ch\<in>set m. \<not> isWhiteSpace ch" by auto
qed

theorem no_blank_chat_message_witness:
  "ChatMessageEmit ''/tool interest_rate_info current rates''
     \<in> set (fst (run [Connect, ChatInputUI Desktop (SelectOption 3),
                        ChatInputUI Desktop SubmitForm, ChatInputUI Desktop (SelectOption 0),
                        ChatInputUI Desktop (Type '' ''), ChatInputUI Desktop SubmitForm]
                   client_init)) \<and>
   trim ''/tool interest_rate_info current rates'' \<noteq> [] \<and>
   sendMessage '' '' app_init = ([], app_init)"
proof -
  have e: "ChatMessageEmit ''/tool interest_rate_info current rates''
     \<in> set (fst (run [Connect, ChatInputUI Desktop (SelectOption 3),
                        ChatInputUI Desktop SubmitForm, ChatInputUI Desktop (SelectOption 0),
                        ChatInputUI Desktop (Type '' ''), ChatInputUI Desktop SubmitForm]
                   client_init))"
    unfolding chat_session by simp
  have b: "trim '' '' = []" by (simp add: trim_def isWhiteSpace_def)
  from e
    no_blank_chat_message[of "''/tool interest_rate_info current rates''" app_init False ci_init
      "[Connect, ChatInputUI Desktop (SelectOption 3),
        ChatInputUI Desktop SubmitForm, ChatInputUI Desktop (SelectOption 0),
        ChatInputUI Desktop (Type '' ''), ChatInputUI Desktop SubmitForm]" client_init]
  have "trim ''/tool interest_rate_info current rates'' \<noteq> []" by blast
  moreover from b no_blank_chat_message[of "'' ''" app_init False ci_init "[]" client_init]
  have "sendMessage '' '' app_init = ([], app_init)" by blast
  ultimately show ?thesis using e by blast
qed

text \<open>
  C8. Every feedback event the client emits carries a rating in {1, 2, 3, 4, 5}, so that
  \<open>record_feedback\<close> never answers it with \<open>InvalidRating\<close>. The mechanism: the submit
  handler calls \<open>onFeedback\<close> only with the selected rating and not at all when none is
  selected; a click on a rating button selects one of the five values; the submit button
  is disabled exactly while no rating is selected.
\<close>

theorem feedback_rating_in_range:
  "(FeedbackEmit i r t \<in> set (fst (run evs client_init)) \<longrightarrow>
      r \<in> {1, 2, 3, 4, 5} \<and>
      (\<forall>now n tags s. fst (record_feedback now n r tags s) \<noteq> Inl InvalidRating)) \<and>
   (fst (fb_handleSubmit f) = OnFeedback r t \<longrightarrow> selectedRating f = Some r) \<and>
   (selectedRating f = None \<longrightarrow> (\<exists>msg. fb_handleSubmit f = (Alert msg, f))) \<and>
   (selectedRating (snd (fb_step (ClickRating k) f)) = selectedRating f \<or>
    selectedRating (snd (fb_step (ClickRating k) f)) \<in> Some ` {1, 2, 3, 4, 5}) \<and>
   (submitDisabled f \<longleftrightarrow> selectedRating f = None)"
proof (intro conjI impI)
  assume e: "FeedbackEmit i r t \<in> set (fst (run evs client_init))"
  from run_emit[OF init_inv e] show r: "r \<in> {1, 2, 3, 4, 5}" by auto
  then show "\<forall>now n tags s. fst (record_feedback now n r tags s) \<noteq> Inl InvalidRating"
    by (auto simp: record_feedback_def case_prod_beta split: option.splits)
next
  assume "fst (fb_handleSubmit f) = OnFeedback r t"
  then show "selectedRating f = Some r"
    by (auto simp: fb_handleSubmit_def split: option.splits)
next
  assume "selectedRating f = None"
  then show "\<exists>msg. fb_handleSubmit f = (Alert msg, f)"
    by (simp add: fb_handleSubmit_def)
next
  have "k < 5 \<Longrightarrow> [1, 2, 3, 4, 5 :: int] ! k \<in> {1, 2, 3, 4, 5}"
    by (simp add: nth_Cons')
  then show "selectedRating (snd (fb_step (ClickRating k) f)) = selectedRating f \<or>
    selectedRating (snd (fb_step (ClickRating k) f)) \<in> Some ` {1, 2, 3, 4, 5}"
    by (auto simp: RATING_BUTTONS_def)
next
  show "submitDisabled f \<longleftrightarrow> selectedRating f = None" by (simp add: submitDisabled_def)
qed

theorem feedback_rating_in_range_witness:
  "FeedbackEmit ''A'' 5 []
     \<in> set (fst (run [Response response_A, FeedbackUI Desktop (ClickRating 4),
                        FeedbackUI Desktop ClickSubmit] client_init)) \<and>
   (5 :: int) \<in> {1, 2, 3, 4, 5} \<and>
   fst (record_feedback 0 0 5 [] empty_core) \<noteq> Inl InvalidRating"
proof -
  have e: "FeedbackEmit ''A'' 5 []
     \<in> set (fst (run [Response response_A, FeedbackUI Desktop (ClickRating 4),
                        FeedbackUI Desktop ClickSubmit] client_init))"
    unfolding rated_session by simp
  from e
    feedback_rating_in_range[of "''A''" 5 "[]"
      "[Response response_A, FeedbackUI Desktop (ClickRating 4), FeedbackUI Desktop ClickSubmit]"
      fb_init 0]
  have "(5 :: int) \<in> {1, 2, 3, 4, 5} \<and>
      (\<forall>now n tags s. fst (record_feedback now n 5 tags s) \<noteq> Inl InvalidRating)"
    by blast
  with e show ?thesis by blast
qed

text \<open>
  C9, as stated: for every interaction id received from the server, at most one feedback
  event referencing it is ever sent. It fails when the server delivers the same id in two
  responses: the client keeps the last id only and no record of the ids it has rated.
\<close>

theorem one_feedback_per_id_counterexample:
  "delivered_count ''A''
     [Response response_A, FeedbackUI Desktop (ClickRating 3), FeedbackUI Desktop ClickSubmit,
      Response response_A, FeedbackUI Desktop (ClickRating 0), FeedbackUI Desktop ClickSubmit]
     = 2 \<and>
   feedback_count ''A''
     (fst (run [Response response_A, FeedbackUI Desktop (ClickRating 3),
                FeedbackUI Desktop ClickSubmit,
                Response response_A, FeedbackUI Desktop (ClickRating 0),
                FeedbackUI Desktop ClickSubmit] client_init)) = 2 \<and>
   \<not> feedback_count ''A''
     (fst (run [Response response_A, FeedbackUI Desktop (ClickRating 3),
                FeedbackUI Desktop ClickSubmit,
                Response response_A, FeedbackUI Desktop (ClickRating 0),
                FeedbackUI Desktop ClickSubmit] client_init)) \<le> 1"
  unfolding repeated_id_session by (simp add: feedback_count_def delivered_count_def response_A_def)

text \<open>
  C9, amended. For every interaction id, the client sends at most as many feedback events
  referencing it as the server sent responses carrying it; so at most one when the server
  delivers the id in one response. The mechanism: \<open>sendFeedback\<close> emits nothing when
  \<open>lastInteractionId\<close> is null, it has reset \<open>lastInteractionId\<close> to null whenever it
  emitted, and sending a chat message clears \<open>lastInteractionId\<close> too.
\<close>

theorem feedback_bounded_by_deliveries:
  "feedback_count i (fst (run evs client_init)) \<le> delivered_count i evs \<and>
   (delivered_count i evs \<le> 1 \<longrightarrow> feedback_count i (fst (run evs client_init)) \<le> 1) \<and>
   (lastInteractionId a = None \<longrightarrow> sendFeedback r t a = ([], a)) \<and>
   (fst (sendFeedback r t a) \<noteq> [] \<longrightarrow> lastInteractionId (snd (sendFeedback r t a)) = None) \<and>
   (trim m \<noteq> [] \<longrightarrow> lastInteractionId (snd (sendMessage m a)) = None)"
proof (intro conjI impI)
  from run_pending[of i evs client_init]
  show b: "feedback_count i (fst (run evs client_init)) \<le> delivered_count i evs"
    by (simp add: pending_def client_init_def render_app app_init_def)
  assume "delivered_count i evs \<le> 1"
  with b show "feedback_count i (fst (run evs client_init)) \<le> 1" by simp
next
  assume "lastInteractionId a = None"
  then show "sendFeedback r t a = ([], a)" by (simp add: sendFeedback_def)
next
  assume "fst (sendFeedback r t a) \<noteq> []"
  then show "lastInteractionId (snd (sendFeedback r t a)) = None"
    by (auto simp: sendFeedback_def Let_def split: option.splits if_splits)
next
  assume "trim m \<noteq> []"
  then show "lastInteractionId (snd (sendMessage m a)) = None"
    by (simp add: sendMessage_def Let_def)
qed

theorem feedback_bounded_by_deliveries_witness:
  "delivered_count ''A''
     [Response response_A, FeedbackUI Desktop (ClickRating 4), FeedbackUI Desktop ClickSubmit,
      FeedbackUI Desktop ClickSubmit] \<le> 1 \<and>
   feedback_count ''A''
     (fst (run [Response response_A, FeedbackUI Desktop (ClickRating 4),
                FeedbackUI Desktop ClickSubmit, FeedbackUI Desktop ClickSubmit]
             client_init)) \<le> 1 \<and>
   sendFeedback 5 [] app_init = ([], app_init)"
proof -
  have d: "delivered_count ''A''
     [Response response_A, FeedbackUI Desktop (ClickRating 4), FeedbackUI Desktop ClickSubmit,
      FeedbackUI Desktop ClickSubmit] \<le> 1"
    by (simp add: delivered_count_def response_A_def)
  have n: "lastInteractionId app_init = None" by (simp add: app_init_def)
  from d
    feedback_bounded_by_deliveries[of "''A''"
      "[Response response_A, FeedbackUI Desktop (ClickRating 4), FeedbackUI Desktop ClickSubmit,
        FeedbackUI Desktop ClickSubmit]" app_init 5 "[]" "[]"]
  have "feedback_count ''A''
     (fst (run [Response response_A, FeedbackUI Desktop (ClickRating 4),
                FeedbackUI Desktop ClickSubmit, FeedbackUI Desktop ClickSubmit]
             client_init)) \<le> 1"
    by blast
  moreover from n feedback_bounded_by_deliveries[of "''A''" "[]" app_init 5 "[]" "[]"]
  have "sendFeedback 5 [] app_init = ([], app_init)" by blast
  ultimately show ?thesis using d by blast
qed




section \<open>Properties of the core\<close>

subsection \<open>Auxiliary facts about the graph\<close>

lemma add_node_inv:
  "graph_inv g \<Longrightarrow> graph_inv (snd (add_node p g))"
  by (auto simp: graph_inv_def add_node_def less_Suc_eq)

lemma add_node_nodes:
  "nodes (snd (add_node p g)) = nodes g @ [\<lparr>n_id = next_id g, n_payload = p\<rparr>]"
  "fst (add_node p g) = next_id g"
  "edges (snd (add_node p g)) = edges g"
  by (simp_all add: add_node_def)

lemma add_edge_nodes:
  "nodes (add_edge a b k w g) = nodes g" "next_id (add_edge a b k w g) = next_id g"
  by (simp_all add: add_edge_def)

lemma add_edge_inv: "graph_inv (add_edge a b k w g) = graph_inv g"
  by (simp add: graph_inv_def add_edge_nodes)

lemma ensure_tool_inv: "graph_inv g \<Longrightarrow> graph_inv (snd (ensure_tool nm g))"
  by (simp add: ensure_tool_def add_node_inv split: option.splits)

lemma ensure_tool_nodes:
  "\<exists>extra. nodes (snd (ensure_tool nm g)) = nodes g @ extra \<and>
     (\<forall>n\<in>set extra. kind_of (n_payload n) = KTool)"
  by (simp add: ensure_tool_def add_node_nodes split: option.splits)

lemma record_interaction_fst: "fst (record_interaction cfg now ui ar act s) = next_id (graph s)"
  by (simp add: record_interaction_def case_prod_beta add_node_nodes)

lemma record_interaction_graph:
  "graph (snd (record_interaction cfg now ui ar act s)) =
     (let g1 = snd (add_node (Interaction now ui ar act (topic_tagger cfg (ui @ ar) act)) (graph s))
      in if act \<in> set (known_tools cfg)
         then add_edge (fst (ensure_tool act g1)) (next_id (graph s)) Produced 1 (snd (ensure_tool act g1))
         else g1)"
  by (simp add: record_interaction_def case_prod_beta add_node_nodes Let_def)

lemma record_interaction_nodes:
  "\<exists>extra. nodes (graph (snd (record_interaction cfg now ui ar act s)))
      = nodes (graph s) @
        \<lparr>n_id = next_id (graph s),
         n_payload = Interaction now ui ar act (topic_tagger cfg (ui @ ar) act)\<rparr> # extra \<and>
      (\<forall>n\<in>set extra. kind_of (n_payload n) = KTool)"
proof -
  let ?p = "Interaction now ui ar act (topic_tagger cfg (ui @ ar) act)"
  let ?g1 = "snd (add_node ?p (graph s))"
  from ensure_tool_nodes[of act ?g1] obtain extra where
    e: "nodes (snd (ensure_tool act ?g1)) = nodes ?g1 @ extra"
       "\<forall>n\<in>set extra. kind_of (n_payload n) = KTool" by blast
  show ?thesis
  proof (cases "act \<in> set (known_tools cfg)")
    case False
    then show ?thesis
      by (simp add: record_interaction_graph add_node_nodes Let_def)
  next
    case True
    with e show ?thesis
      by (simp add: record_interaction_graph add_edge_nodes add_node_nodes Let_def)
  qed
qed

lemma record_interaction_inv:
  assumes "graph_inv (graph s)"
  shows "graph_inv (graph (snd (record_interaction cfg now ui ar act s)))"
proof -
  let ?p = "Interaction now ui ar act (topic_tagger cfg (ui @ ar) act)"
  from assms have 1: "graph_inv (snd (add_node ?p (graph s)))" by (rule add_node_inv)
  then have "graph_inv (snd (ensure_tool act (snd (add_node ?p (graph s)))))"
    by (rule ensure_tool_inv)
  with 1 show ?thesis
    by (simp add: record_interaction_graph add_edge_inv Let_def)
qed

lemma record_feedback_graph:
  "\<exists>extra. nodes (graph (snd (record_feedback now i r ts s))) = nodes (graph s) @ extra \<and>
     (\<forall>n\<in>set extra. kind_of (n_payload n) = KFeedback)"
  by (simp add: record_feedback_def case_prod_beta add_node_nodes add_edge_nodes split: option.splits)

lemma record_feedback_inv:
  assumes "graph_inv (graph s)"
  shows "graph_inv (graph (snd (record_feedback now i r ts s)))"
proof -
  have "graph_inv (snd (add_node p (graph s)))" for p using assms by (rule add_node_inv)
  with assms show ?thesis
    by (simp add: record_feedback_def case_prod_beta add_edge_inv split: option.splits)
qed

lemma train_graph: "graph (snd (train cfg now s)) = graph s"
  by (simp add: train_def Let_def split: option.splits)

lemma suggest_state: "snd (suggest cfg st s) = s"
  by (simp add: suggest_def Let_def split: option.splits)

lemma export_state: "snd (export s) = s"
  by (simp add: export_def)

lemma apply_op_nodes:
  "\<exists>extra. nodes (graph (snd (apply_op cfg x s))) = nodes (graph s) @ extra \<and>
     map n_id (filter (\<lambda>n. kind_of (n_payload n) = KInteraction) extra) = returned_ids [fst (apply_op cfg x s)]"
proof (cases x)
  case (RecordInteraction now ui ar act)
  from record_interaction_nodes[of cfg now ui ar act s] obtain extra where
    e: "nodes (graph (snd (record_interaction cfg now ui ar act s)))
      = nodes (graph s) @
        \<lparr>n_id = next_id (graph s),
         n_payload = Interaction now ui ar act (topic_tagger cfg (ui @ ar) act)\<rparr> # extra"
      "\<forall>n\<in>set extra. kind_of (n_payload n) = KTool" by blast
  from e(2) have "filter (\<lambda>n. kind_of (n_payload n) = KInteraction) extra = []"
    by (auto simp: filter_empty_conv)
  with RecordInteraction e(1) show ?thesis
    by (simp add: case_prod_beta record_interaction_fst)
next
  case (RecordFeedback now i r ts)
  from record_feedback_graph[of now i r ts s] obtain extra where
    e: "nodes (graph (snd (record_feedback now i r ts s))) = nodes (graph s) @ extra"
      "\<forall>n\<in>set extra. kind_of (n_payload n) = KFeedback" by blast
  from e(2) have "filter (\<lambda>n. kind_of (n_payload n) = KInteraction) extra = []"
    by (auto simp: filter_empty_conv)
  with RecordFeedback e(1) show ?thesis
    by (simp add: case_prod_beta)
next
  case (Train now)
  then show ?thesis by (simp add: case_prod_beta train_graph)
next
  case (Suggest st)
  then show ?thesis by (simp add: case_prod_beta suggest_state)
next
  case Export
  then show ?thesis by (simp add: case_prod_beta export_state)
qed

lemma apply_op_inv:
  "graph_inv (graph s) \<Longrightarrow> graph_inv (graph (snd (apply_op cfg x s)))"
  by (cases x)
     (simp_all add: case_prod_beta record_interaction_inv record_feedback_inv train_graph
        suggest_state export_state)

lemma run_ops_fst:
  "fst (run_ops cfg (x # xs) s) = fst (apply_op cfg x s) # fst (run_ops cfg xs (snd (apply_op cfg x s)))"
  by (simp add: case_prod_beta)

lemma run_ops_snd:
  "snd (run_ops cfg (x # xs) s) = snd (run_ops cfg xs (snd (apply_op cfg x s)))"
  by (simp add: case_prod_beta)

lemma returned_ids_Cons: "returned_ids (r # rs) = returned_ids [r] @ returned_ids rs"
  by (cases r) simp_all

lemma returned_ids_length:
  "length (returned_ids (fst (run_ops cfg ops s))) = length (filter is_record_interaction ops)"
proof (induction ops arbitrary: s)
  case Nil
  then show ?case by simp
next
  case (Cons x ops)
  have "length (returned_ids [fst (apply_op cfg x s)]) = (if is_record_interaction x then 1 else 0)"
    by (cases x) (simp_all add: case_prod_beta)
  with Cons.IH[of "snd (apply_op cfg x s)"] show ?case
    by (simp only: run_ops_fst returned_ids_Cons[of _ "fst (run_ops cfg ops (snd (apply_op cfg x s)))"])
       simp
qed

lemma run_ops_inv:
  "graph_inv (graph s) \<Longrightarrow> graph_inv (graph (snd (run_ops cfg ops s)))"
proof (induction ops arbitrary: s)
  case Nil
  then show ?case by simp
next
  case (Cons x ops)
  from Cons.prems have "graph_inv (graph (snd (apply_op cfg x s)))" by (rule apply_op_inv)
  from Cons.IH[OF this] show ?case by (simp only: run_ops_snd)
qed

lemma run_ops_nodes:
  "\<exists>extra. nodes (graph (snd (run_ops cfg ops s))) = nodes (graph s) @ extra \<and>
     map n_id (filter (\<lambda>n. kind_of (n_payload n) = KInteraction) extra)
       = returned_ids (fst (run_ops cfg ops s))"
proof (induction ops arbitrary: s)
  case Nil
  then show ?case by simp
next
  case (Cons x ops)
  let ?s1 = "snd (apply_op cfg x s)"
  from apply_op_nodes[of cfg x s] obtain e1 where
    1: "nodes (graph ?s1) = nodes (graph s) @ e1"
       "map n_id (filter (\<lambda>n. kind_of (n_payload n) = KInteraction) e1) = returned_ids [fst (apply_op cfg x s)]"
    by blast
  from Cons.IH[of ?s1] obtain e2 where
    2: "nodes (graph (snd (run_ops cfg ops ?s1))) = nodes (graph ?s1) @ e2"
       "map n_id (filter (\<lambda>n. kind_of (n_payload n) = KInteraction) e2)
          = returned_ids (fst (run_ops cfg ops ?s1))"
    by blast
  from 1 2 have "nodes (graph (snd (run_ops cfg (x # ops) s))) = nodes (graph s) @ (e1 @ e2) \<and>
     map n_id (filter (\<lambda>n. kind_of (n_payload n) = KInteraction) (e1 @ e2))
       = returned_ids (fst (run_ops cfg (x # ops) s))"
    by (simp only: run_ops_snd run_ops_fst returned_ids_Cons[of _ "fst (run_ops cfg ops ?s1)"])
       simp
  then show ?case by blast
qed

lemma run_ops_append:
  "snd (run_ops cfg (xs @ ys) s) = snd (run_ops cfg ys (snd (run_ops cfg xs s)))"
  by (induction xs arbitrary: s) (simp_all add: case_prod_beta)


subsection \<open>Auxiliary facts about the operations\<close>


lemma record_feedback_result:
  "fst (record_feedback now i r ts s) =
     (if r < 1 \<or> 5 < r then Inl InvalidRating
      else if find_interaction (graph s) i = None then Inl UnknownInteraction
      else Inr Ack)"
  by (simp add: record_feedback_def case_prod_beta split: option.splits)


lemma clamp_bounds: "- 1 \<le> clamp x \<and> clamp x \<le> 1"
  by (simp add: clamp_def)

lemma tag_delta_unrecognized: "\<not> recognized t \<Longrightarrow> tag_delta t = 0"
proof -
  assume "\<not> recognized t"
  then have "map_of TAG_DELTAS (map to_lower t) = None"
    by (simp add: recognized_def map_of_eq_None_iff)
  then show ?thesis by (simp add: tag_delta_def)
qed

lemma tag_delta_values: "tag_delta ''too verbose'' = - 1 / 10" "tag_delta ''helpful'' = 1 / 10"
  by (simp_all add: tag_delta_def TAG_DELTAS_def to_lower_def)



lemmas core_defs =
  example_core_def example_config_def record_interaction_def add_node_def ensure_tool_def
  add_edge_def TOOL_OPTIONS_def truthy_def empty_core_def empty_graph_def topic_tagger_def
  find_interaction_def interaction_nodes_def

lemma example_core_graph:
  "graph example_core =
     \<lparr>nodes = [\<lparr>n_id = 0, n_payload = Interaction 3 ''What is the payment?''
                  ''About 1896 a month.'' ''mortgage_calculator'' [''general'']\<rparr>,
               \<lparr>n_id = 1, n_payload = Tool ''mortgage_calculator''\<rparr>],
      edges = [\<lparr>e_source = 1, e_target = 0, e_kind = Produced, e_weight = 1\<rparr>],
      next_id = 2\<rparr>"
  by (simp add: core_defs)

lemma example_core_interaction:
  "find_interaction (graph example_core) 0 =
     Some \<lparr>n_id = 0, n_payload = Interaction 3 ''What is the payment?''
             ''About 1896 a month.'' ''mortgage_calculator'' [''general'']\<rparr>"
  unfolding example_core_graph by (simp add: find_interaction_def interaction_nodes_def)

subsection \<open>The claims about the core\<close>

text \<open>
  C1. For a feedback submission with a rating \<open>r\<close> in 1..5 on an existing interaction and
  any tag list \<open>ts\<close>, \<open>record_feedback\<close> succeeds, and the feedback node and the rated edge
  it appends carry the reward \<open>base_reward r + tag_adjustment ts\<close> clamped to [-1, 1], where
  \<open>base_reward r = (r - 3) / 2\<close>, so -1 at 1, 0 at 3 and 1 at 5, and \<open>tag_adjustment\<close> adds
  -0.1 for too verbose, 0.1 for helpful and 0 for every unrecognised tag. Rating 5 with the
  tag Helpful yields 1, rating 1 with the tag Too verbose yields -1.
\<close>

theorem record_feedback_reward:
  assumes "1 \<le> r" and "r \<le> 5" and "find_interaction (graph s) i = Some n"
  shows "fst (record_feedback now i r ts s) = Inr Ack \<and>
    last (nodes (graph (snd (record_feedback now i r ts s)))) =
      \<lparr>n_id = next_id (graph s), n_payload = Feedback i r ts (reward r ts) now\<rparr> \<and>
    last (edges (graph (snd (record_feedback now i r ts s)))) =
      \<lparr>e_source = i, e_target = next_id (graph s), e_kind = Rated, e_weight = reward r ts\<rparr> \<and>
    reward r ts = max (- 1) (min 1 (base_reward r + tag_adjustment ts)) \<and>
    - 1 \<le> reward r ts \<and> reward r ts \<le> 1 \<and>
    base_reward r = (real_of_int r - 3) / 2 \<and>
    base_reward 1 = - 1 \<and> base_reward 3 = 0 \<and> base_reward 5 = 1 \<and>
    tag_adjustment ts = sum_list (map tag_delta ts) \<and>
    tag_delta ''too verbose'' = - 1 / 10 \<and> tag_delta ''helpful'' = 1 / 10 \<and>
    (\<forall>t. \<not> recognized t \<longrightarrow> tag_delta t = 0) \<and>
    reward 5 [''Helpful''] = 1 \<and> reward 1 [''Too verbose''] = - 1"
proof -
  from assms have "fst (record_feedback now i r ts s) = Inr Ack"
    by (simp add: record_feedback_result)
  moreover from assms
  have "last (nodes (graph (snd (record_feedback now i r ts s)))) =
      \<lparr>n_id = next_id (graph s), n_payload = Feedback i r ts (reward r ts) now\<rparr>"
    by (simp add: record_feedback_def case_prod_beta add_node_nodes add_edge_nodes)
  moreover from assms
  have "last (edges (graph (snd (record_feedback now i r ts s)))) =
      \<lparr>e_source = i, e_target = next_id (graph s), e_kind = Rated, e_weight = reward r ts\<rparr>"
    by (simp add: record_feedback_def case_prod_beta add_node_nodes add_edge_def)
  moreover have "reward r ts = max (- 1) (min 1 (base_reward r + tag_adjustment ts))"
    by (simp add: reward_def clamp_def)
  moreover have "- 1 \<le> reward r ts \<and> reward r ts \<le> 1"
    unfolding reward_def by (rule clamp_bounds)
  moreover have "base_reward r = (real_of_int r - 3) / 2 \<and>
    base_reward 1 = - 1 \<and> base_reward 3 = 0 \<and> base_reward 5 = 1"
    by (simp add: base_reward_def)
  moreover have "tag_adjustment ts = sum_list (map tag_delta ts)"
    by (simp add: tag_adjustment_def)
  moreover have "\<forall>t. \<not> recognized t \<longrightarrow> tag_delta t = 0"
    by (simp add: tag_delta_unrecognized)
  ultimately show ?thesis
    by (simp only: tag_delta_values reward_values)
qed

theorem record_feedback_reward_witness:
  "fst (record_feedback 7 0 5 [''Helpful''] example_core) = Inr Ack \<and>
   last (nodes (graph (snd (record_feedback 7 0 5 [''Helpful''] example_core)))) =
     \<lparr>n_id = 2, n_payload = Feedback 0 5 [''Helpful''] 1 7\<rparr>"
proof -
  have "(1 :: int) \<le> 5" "(5 :: int) \<le> 5" by simp_all
  from record_feedback_reward[OF this example_core_interaction, of 7 "[''Helpful'']"]
  have "fst (record_feedback 7 0 5 [''Helpful''] example_core) = Inr Ack"
    and "last (nodes (graph (snd (record_feedback 7 0 5 [''Helpful''] example_core)))) =
      \<lparr>n_id = next_id (graph example_core),
       n_payload = Feedback 0 5 [''Helpful''] (reward 5 [''Helpful'']) 7\<rparr>"
    by blast+
  then show ?thesis by (simp add: reward_values example_core_graph)
qed










text \<open>
  C7. After any history of operations from the empty graph in which \<open>record_interaction\<close>
  is called N times, and so after any sequence of N such calls, the graph contains exactly
  N interaction nodes; their ids are the ids the calls returned, and they are pairwise
  distinct, as are the ids of all nodes. No identifier is ever reused: every id in use is
  below the next one to hand out, and a longer history only appends nodes to the ones
  there.
\<close>

theorem record_interaction_fresh_ids:
  "length (interaction_nodes (graph (snd (run_ops cfg ops empty_core))))
     = length (filter is_record_interaction ops) \<and>
   ((\<forall>x\<in>set ops. is_record_interaction x) \<longrightarrow>
      length (interaction_nodes (graph (snd (run_ops cfg ops empty_core)))) = length ops) \<and>
   map n_id (interaction_nodes (graph (snd (run_ops cfg ops empty_core))))
     = returned_ids (fst (run_ops cfg ops empty_core)) \<and>
   distinct (map n_id (interaction_nodes (graph (snd (run_ops cfg ops empty_core))))) \<and>
   distinct (map n_id (nodes (graph (snd (run_ops cfg ops empty_core))))) \<and>
   (\<forall>n\<in>set (nodes (graph (snd (run_ops cfg ops empty_core)))).
      n_id n < next_id (graph (snd (run_ops cfg ops empty_core)))) \<and>
   (\<exists>new. nodes (graph (snd (run_ops cfg (ops @ later) empty_core)))
            = nodes (graph (snd (run_ops cfg ops empty_core))) @ new \<and>
          (\<forall>n\<in>set new.
             n_id n \<notin> n_id ` set (nodes (graph (snd (run_ops cfg ops empty_core))))))"
proof -
  let ?s = "snd (run_ops cfg ops empty_core)"
  let ?s2 = "snd (run_ops cfg (ops @ later) empty_core)"
  have inv0: "graph_inv (graph empty_core)"
    by (simp add: graph_inv_def empty_core_def empty_graph_def)
  then have inv: "graph_inv (graph ?s)" by (rule run_ops_inv)
  from inv0 have inv2: "graph_inv (graph ?s2)" by (rule run_ops_inv)
  from run_ops_nodes[of cfg ops empty_core] obtain extra where
    ex: "nodes (graph ?s) = extra"
        "map n_id (filter (\<lambda>n. kind_of (n_payload n) = KInteraction) extra)
           = returned_ids (fst (run_ops cfg ops empty_core))"
    by (auto simp: empty_core_def empty_graph_def)
  then have ids: "map n_id (interaction_nodes (graph ?s)) = returned_ids (fst (run_ops cfg ops empty_core))"
    by (simp add: interaction_nodes_def)
  then have "length (map n_id (interaction_nodes (graph ?s)))
     = length (returned_ids (fst (run_ops cfg ops empty_core)))" by simp
  then have len: "length (interaction_nodes (graph ?s)) = length (filter is_record_interaction ops)"
    by (simp add: returned_ids_length)
  have all: "(\<forall>x\<in>set ops. is_record_interaction x) \<longrightarrow> length (interaction_nodes (graph ?s)) = length ops"
    using len by simp
  from inv have d: "distinct (map n_id (nodes (graph ?s)))"
    and b: "\<forall>n\<in>set (nodes (graph ?s)). n_id n < next_id (graph ?s)"
    by (simp_all add: graph_inv_def)
  from d have di: "distinct (map n_id (interaction_nodes (graph ?s)))"
    by (simp add: interaction_nodes_def distinct_map_filter)
  from run_ops_nodes[of cfg later ?s] obtain new where
    new: "nodes (graph ?s2) = nodes (graph ?s) @ new"
    by (auto simp: run_ops_append)
  from inv2 new have fresh: "\<forall>n\<in>set new. n_id n \<notin> n_id ` set (nodes (graph ?s))"
    by (auto simp: graph_inv_def)
  from len all ids di d b new fresh show ?thesis by blast
qed

theorem record_interaction_fresh_ids_witness:
  "map n_id (interaction_nodes (graph (snd (run_ops example_config
       [RecordInteraction 1 ''q'' ''a'' ''general'',
        RecordInteraction 2 ''q'' ''a'' ''loan_eligibility''] empty_core))))
     = [0, 1] \<and>
   length (interaction_nodes (graph (snd (run_ops example_config
       [RecordInteraction 1 ''q'' ''a'' ''general'',
        RecordInteraction 2 ''q'' ''a'' ''loan_eligibility''] empty_core)))) = 2"
proof -
  have a: "\<forall>x\<in>set [RecordInteraction 1 ''q'' ''a'' ''general'',
        RecordInteraction 2 ''q'' ''a'' ''loan_eligibility'']. is_record_interaction x"
    by simp
  have r: "returned_ids (fst (run_ops example_config
       [RecordInteraction 1 ''q'' ''a'' ''general'',
        RecordInteraction 2 ''q'' ''a'' ''loan_eligibility''] empty_core)) = [0, 1]"
    by (simp add: core_defs case_prod_beta)
  from a record_interaction_fresh_ids[of example_config
       "[RecordInteraction 1 ''q'' ''a'' ''general'',
         RecordInteraction 2 ''q'' ''a'' ''loan_eligibility'']" "[]"]
  have "length (interaction_nodes (graph (snd (run_ops example_config
       [RecordInteraction 1 ''q'' ''a'' ''general'',
        RecordInteraction 2 ''q'' ''a'' ''loan_eligibility''] empty_core))))
      = length [RecordInteraction 1 ''q'' ''a'' ''general'',
        RecordInteraction 2 ''q'' ''a'' ''loan_eligibility'']"
    and "map n_id (interaction_nodes (graph (snd (run_ops example_config
       [RecordInteraction 1 ''q'' ''a'' ''general'',
        RecordInteraction 2 ''q'' ''a'' ''loan_eligibility''] empty_core))))
     = returned_ids (fst (run_ops example_config
       [RecordInteraction 1 ''q'' ''a'' ''general'',
        RecordInteraction 2 ''q'' ''a'' ''loan_eligibility''] empty_core))"
    by blast+
  then show ?thesis unfolding r by simp
qed

end
